theory Spec2Isabelle
  imports Main "HOL-Library.Multiset"
begin

section \<open>Data model (migration.go, tidal.go)\<close>

text \<open>
  \<open>time.Time\<close> values are instants; only their identity matters here, so an instant is
  an integer and the zero \<open>time.Time{}\<close> is \<open>0\<close>. A \<open>Descriptor\<close> is Go's
  \<open>type Descriptor []byte\<close>; a Go \<open>string\<close> is a byte sequence as well, and HOL's
  \<open>char\<close> is a byte.
\<close>

type_synonym time = int

type_synonym Descriptor = "char list"

text \<open>
  \<open>type Migration struct\<close>. Go's \<open>int\<close> field \<open>Revision\<close> is only compared and
  printed, never used in arithmetic, so it is an \<open>int\<close> here; the one place where the
  machine width matters, \<open>strconv.Atoi\<close>, writes the 64-bit bound out.
\<close>

record Migration =
  Revision :: int
  Name :: string
  Active :: bool
  Applied :: time
  Created :: time
  descriptor :: Descriptor
  dbsync :: bool

text \<open>The zero value \<open>Migration{}\<close>.\<close>

definition Migration_zero :: Migration where
  "Migration_zero =
     \<lparr>Revision = 0, Name = [], Active = False, Applied = 0, Created = 0,
      descriptor = [], dbsync = False\<rparr>"

text \<open>The composite literal \<open>Migration{Revision: r}\<close>, as the tests write it.\<close>

definition Migration_rev :: "int \<Rightarrow> Migration" where
  "Migration_rev r = Migration_zero\<lparr>Revision := r\<rparr>"

text \<open>
  The errors of the package are built with \<open>fmt.Errorf\<close> and \<open>errors.New\<close>; each
  constructor below stands for one message of the source and carries the values the
  message is formatted with. An error of a collaborator (the operating system, the
  descriptor code, the database driver) appears through its message, a string, either
  embedded by \<open>%s\<close> or handed on unchanged (\<open>Foreign\<close>).

  \<^item> \<open>FilenameFormatError f\<close>: "could not parse %q as a migration filename"
  \<^item> \<open>RevisionFormatError g e\<close>: "could not parse %q to revision number: %s"
  \<^item> \<open>HeaderMissingError\<close>: "descriptor data does not contain required header information"
  \<^item> \<open>DuplicateRevisionError r\<close>: "cannot register migration with revision %d: revision already exists"
  \<^item> \<open>UnregisteredError r\<close>: "revision %d was not registered"
  \<^item> \<open>BeginApplyError r e\<close>: "could not begin transaction to apply revision %d: %s"
  \<^item> \<open>BeginRollbackError r e\<close>: "could not begin transaction to rollback revision %d: %s"
  \<^item> \<open>ParseUpError r e\<close>: "could not parse revision %d up sql: %s"
  \<^item> \<open>ExecUpError r e\<close>: "could not exec revision %d up: %s"
  \<^item> \<open>ParseDownError r e\<close>: "could not parse revision %d down sql: %s"
  \<^item> \<open>ExecDownError r e\<close>: "could not exec revision %d down: %s"
  \<^item> \<open>StatusUpdateError r e\<close>: "could not update migration status of revision %d: %s"
\<close>

datatype num_error = ErrSyntax | ErrRange

datatype error =
    FilenameFormatError string
  | RevisionFormatError string num_error
  | HeaderMissingError
  | DuplicateRevisionError int
  | UnregisteredError int
  | BeginApplyError int string
  | BeginRollbackError int string
  | ParseUpError int string
  | ExecUpError int string
  | ParseDownError int string
  | ExecDownError int string
  | StatusUpdateError int string
  | Foreign string

section \<open>The registry (tidal.go)\<close>

text \<open>
  \<open>sort.Search(n, f)\<close> of the Go standard library:
  \<^verbatim>\<open>
  i, j := 0, n
  for i < j {
      h := int(uint(i+j) >> 1)
      if !f(h) { i = h + 1 } else { j = h }
  }
  return i
  \<close>
  The indices are non-negative and \<open>i + j\<close> is computed without overflow, so they are
  natural numbers.
\<close>

function Search_loop :: "(nat \<Rightarrow> bool) \<Rightarrow> nat \<Rightarrow> nat \<Rightarrow> nat" where
  "Search_loop f i j =
     (if i < j
      then (let h = (i + j) div 2
            in if \<not> f h then Search_loop f (h + 1) j else Search_loop f i h)
      else i)"
  by pat_completeness auto
termination
  by (relation "measure (\<lambda>(f, i, j). j - i)") auto

definition Search :: "nat \<Rightarrow> (nat \<Rightarrow> bool) \<Rightarrow> nat" where
  "Search n f = Search_loop f 0 n"

text \<open>
  The registry is the package variable \<open>var migrations []Migration\<close>; every function
  that reads or writes it takes it as an argument, and \<open>Register\<close> and \<open>Reset\<close>
  return its new value with their error (\<open>None\<close> is \<open>nil\<close>).

  \<open>Register\<close> inserts in three steps: \<open>append(migrations, Migration{})\<close>, then
  \<open>copy(migrations[i+1:], migrations[i:])\<close>, which moves as many elements as the
  destination holds, then \<open>migrations[i] = m\<close>.
\<close>

definition copy_up :: "'a list \<Rightarrow> nat \<Rightarrow> 'a list" where
  "copy_up xs i = take (i + 1) xs @ take (length xs - (i + 1)) (drop i xs)"

definition Register :: "Migration list \<Rightarrow> Migration \<Rightarrow> error option \<times> Migration list" where
  "Register migrations m =
     (let i = Search (length migrations) (\<lambda>i. Revision (migrations ! i) \<ge> Revision m)
      in if i < length migrations \<and> Revision (migrations ! i) = Revision m
         then (Some (DuplicateRevisionError (Revision m)), migrations)
         else (None, (copy_up (migrations @ [Migration_zero]) i)[i := m]))"

definition Reset :: "Migration list \<Rightarrow> error option \<times> Migration list" where
  "Reset migrations = (None, [])"

text \<open>
  A sequence of \<open>Register\<close> calls, starting from a given registry; a call that fails
  leaves the registry as it was, as \<open>Register\<close> itself returns it.
\<close>

fun Register_all :: "Migration list \<Rightarrow> Migration list \<Rightarrow> Migration list" where
  "Register_all migrations [] = migrations"
| "Register_all migrations (m # ms) = Register_all (snd (Register migrations m)) ms"

text \<open>
  \<open>Predecessors\<close>: the \<open>range\<close> loop either leaves by \<open>break\<close> or by running out of
  elements (\<open>Inr n\<close>, the counter), or returns the error from inside (\<open>Inl\<close>).
\<close>

fun Predecessors_loop :: "int \<Rightarrow> Migration list \<Rightarrow> nat \<Rightarrow> error + nat" where
  "Predecessors_loop r [] n = Inr n"
| "Predecessors_loop r (x # xs) n =
     (if r = Revision x then Inr n
      else if Revision x > r then Inl (UnregisteredError r)
      else Predecessors_loop r xs (n + 1))"

definition Predecessors :: "Migration list \<Rightarrow> Migration \<Rightarrow> error + nat" where
  "Predecessors migrations m =
     (if length migrations = 0 then Inl (UnregisteredError (Revision m))
      else
        (case Predecessors_loop (Revision m) migrations 0 of
           Inl e \<Rightarrow> Inl e
         | Inr n \<Rightarrow>
             if n = length migrations \<and> Revision (migrations ! (n - 1)) \<noteq> Revision m
             then Inl (UnregisteredError (Revision m))
             else Inr n))"

definition Successors :: "Migration list \<Rightarrow> Migration \<Rightarrow> error + nat" where
  "Successors migrations m =
     (let i = Search (length migrations) (\<lambda>i. Revision m \<le> Revision (migrations ! i))
      in if i < length migrations \<and> Revision (migrations ! i) = Revision m
         then (if i + 1 = length migrations then Inr 0
               else Inr (length (drop (i + 1) migrations)))
         else Inl (UnregisteredError (Revision m)))"

text \<open>The registry invariant: strictly ascending revisions.\<close>

definition ascending :: "Migration list \<Rightarrow> bool" where
  "ascending migrations = sorted_wrt (<) (map Revision migrations)"

section \<open>Filename parsing and loading (migration.go, tidal.go)\<close>

text \<open>
  A Go call either returns or panics. A function of the package that can panic has a
  \<open>result\<close>; the value of \<open>Return\<close> is what the Go function returns, an error
  included (\<open>None\<close> is \<open>nil\<close>).
\<close>

datatype panic = IndexOutOfRange nat nat | Thrown string

datatype 'a result = Return 'a | Panic panic

text \<open>
  \<open>var fnamere = regexp.MustCompile(`^(\d+)[_-]([\w\d_-]+)\.sql$`)\<close>. In Go's
  regular expressions \<open>\d\<close> is \<open>[0-9]\<close> and \<open>\w\<close> is \<open>[0-9A-Za-z_]\<close>, both ASCII
  only, and \<open>$\<close> without the \<open>m\<close> flag is the end of the text.
\<close>

definition is_digit :: "char \<Rightarrow> bool" where
  "is_digit c = (c \<in> set ''0123456789'')"

definition is_word :: "char \<Rightarrow> bool" where
  "is_word c =
     (c \<in> set ''0123456789ABCDEFGHIJKLMNOPQRSTUVWXYZabcdefghijklmnopqrstuvwxyz_'')"

definition is_name_char :: "char \<Rightarrow> bool" where
  "is_name_char c = (is_word c \<or> is_digit c \<or> c = CHR ''_'' \<or> c = CHR ''-'')"

text \<open>
  What the pattern says: the whole text is a non-empty run of digits (group 1), one of
  \<open>_\<close> and \<open>-\<close>, a non-empty run of name characters (group 2), and \<open>.sql\<close>.
\<close>

definition fnamere_groups :: "string \<Rightarrow> string \<Rightarrow> string \<Rightarrow> bool" where
  "fnamere_groups s g1 g2 =
     (\<exists>sep. s = g1 @ sep # g2 @ ''.sql'' \<and>
            g1 \<noteq> [] \<and> list_all is_digit g1 \<and>
            (sep = CHR ''_'' \<or> sep = CHR ''-'') \<and>
            g2 \<noteq> [] \<and> list_all is_name_char g2)"

text \<open>
  \<open>fnamere.FindStringSubmatch\<close>: the slice of the whole match and the two groups, or
  \<open>nil\<close> (the empty list). The separator is not a digit and a name character is not a
  dot, so the groups are found by taking the leading digits and cutting the last four
  bytes off.
\<close>

definition FindStringSubmatch :: "string \<Rightarrow> string list" where
  "FindStringSubmatch s =
     (let g1 = takeWhile is_digit s
      in case dropWhile is_digit s of
           [] \<Rightarrow> []
         | sep # body \<Rightarrow>
             (let g2 = take (length body - 4) body
              in if g1 \<noteq> [] \<and> (sep = CHR ''_'' \<or> sep = CHR ''-'') \<and>
                    drop (length body - 4) body = ''.sql'' \<and>
                    g2 \<noteq> [] \<and> list_all is_name_char g2
                 then [s, g1, g2] else []))"

definition MatchString :: "string \<Rightarrow> bool" where
  "MatchString s = (FindStringSubmatch s \<noteq> [])"

text \<open>
  \<open>strconv.Atoi\<close> of the Go standard library, on a platform whose \<open>int\<close> has 64 bits:
  an optional sign, then \<open>ParseUint\<close>'s loop over the bytes, which stops with a syntax
  error at a byte that is not a digit and with a range error when the value leaves 64
  bits, then \<open>ParseInt\<close>'s check against the signed range. The unsigned 64-bit
  accumulator never wraps before the loop stops, so it is an \<open>int\<close> here.
\<close>

definition digit_val :: "char \<Rightarrow> int" where
  "digit_val c = of_char c - 48"

fun ParseUint_loop :: "int \<Rightarrow> string \<Rightarrow> num_error + int" where
  "ParseUint_loop n [] = Inr n"
| "ParseUint_loop n (c # cs) =
     (if \<not> is_digit c then Inl ErrSyntax
      else if n \<ge> (2 ^ 64 - 1) div 10 + 1 then Inl ErrRange
      else if n * 10 + digit_val c > 2 ^ 64 - 1 then Inl ErrRange
      else ParseUint_loop (n * 10 + digit_val c) cs)"

definition Atoi :: "string \<Rightarrow> num_error + int" where
  "Atoi s =
     (if s = [] then Inl ErrSyntax
      else
        (let neg = (hd s = CHR ''-'');
             body = (if hd s = CHR ''+'' \<or> hd s = CHR ''-'' then tl s else s)
         in if body = [] then Inl ErrSyntax
            else
              (case ParseUint_loop 0 body of
                 Inl e \<Rightarrow> Inl e
               | Inr un \<Rightarrow>
                   if \<not> neg \<and> un \<ge> 2 ^ 63 then Inl ErrRange
                   else if neg \<and> un > 2 ^ 63 then Inl ErrRange
                   else Inr (if neg then - un else un))))"

text \<open>The number a string of digits denotes.\<close>

definition decimal :: "string \<Rightarrow> int" where
  "decimal ds = foldl (\<lambda>n c. n * 10 + digit_val c) 0 ds"

text \<open>\<open>strings.Replace(s, "_", " ", -1)\<close>.\<close>

definition Replace_underscores :: "string \<Rightarrow> string" where
  "Replace_underscores s = map (\<lambda>c. if c = CHR ''_'' then CHR '' '' else c) s"

text \<open>
  \<open>parseFilename\<close> indexes the slice of groups without looking at its length: on a
  filename the pattern does not match, \<open>groups\<close> is \<open>nil\<close> and \<open>groups[2]\<close> panics.
  It returns the name, the revision and the error.
\<close>

definition parseFilename :: "string \<Rightarrow> (string \<times> int \<times> error option) result" where
  "parseFilename filename =
     (let groups = FindStringSubmatch filename
      in if length groups \<le> 2 then Panic (IndexOutOfRange 2 (length groups))
         else
           (let name = Replace_underscores (groups ! 2)
            in case Atoi (groups ! 1) of
                 Inl e \<Rightarrow> Return ([], 0, Some (RevisionFormatError (groups ! 1) e))
               | Inr revision \<Rightarrow> Return (name, revision, None)))"

text \<open>
  \<open>filepath.Base\<close> of the Go standard library, with \<open>/\<close> as the separator: trailing
  separators are dropped, then everything up to the last separator.
\<close>

definition Base :: "string \<Rightarrow> string" where
  "Base path =
     (if path = [] then ''.''
      else
        (let stripped = rev (dropWhile (\<lambda>c. c = CHR ''/'') (rev path));
             element = rev (takeWhile (\<lambda>c. c \<noteq> CHR ''/'') (rev stripped))
         in if element = [] then ''/'' else element))"

text \<open>
  \<open>Open\<close>. The file system and the descriptor code are not part of this development:
  \<open>os_Open\<close> gives the contents of the file at a path or the message of the error, and
  \<open>NewDescriptor\<close> builds the descriptor from the contents and the filename and returns
  it with the message of its error, if any. \<open>Open\<close> returns the migration and the
  error, as the Go function does.
\<close>

definition Open ::
  "(string \<Rightarrow> string + string) \<Rightarrow> (string \<Rightarrow> string \<Rightarrow> Descriptor \<times> string option) \<Rightarrow>
   string \<Rightarrow> (Migration \<times> error option) result" where
  "Open os_Open NewDescriptor path =
     (let m = Migration_zero; filename = Base path
      in if \<not> MatchString filename then Return (m, Some (FilenameFormatError filename))
         else
           (case parseFilename filename of
              Panic p \<Rightarrow> Panic p
            | Return (name, revision, Some e) \<Rightarrow>
                Return (m\<lparr>Name := name, Revision := revision\<rparr>, Some e)
            | Return (name, revision, None) \<Rightarrow>
                (let m = m\<lparr>Name := name, Revision := revision\<rparr>
                 in case os_Open path of
                      Inl e \<Rightarrow> Return (m, Some (Foreign e))
                    | Inr f \<Rightarrow>
                        (case NewDescriptor f filename of
                           (d, Some e) \<Rightarrow> Return (m\<lparr>descriptor := d\<rparr>, Some (Foreign e))
                         | (d, None) \<Rightarrow> Return (m\<lparr>descriptor := d\<rparr>, None)))))"

text \<open>
  \<open>RegisterDescriptor\<close>. \<open>Info\<close> is the descriptor's method of that name, which is
  not part of this development: it returns the filename, a second value that is ignored
  here, and the message of its error, if any.
\<close>

definition RegisterDescriptor ::
  "(Descriptor \<Rightarrow> string \<times> 'i \<times> string option) \<Rightarrow> Migration list \<Rightarrow> Descriptor \<Rightarrow>
   error option result \<times> Migration list" where
  "RegisterDescriptor Info migrations data =
     (let m = Migration_zero\<lparr>descriptor := data\<rparr>
      in case Info (descriptor m) of
           (filename, _, Some e) \<Rightarrow> (Return (Some (Foreign e)), migrations)
         | (filename, _, None) \<Rightarrow>
             if filename = [] then (Return (Some HeaderMissingError), migrations)
             else
               (case parseFilename filename of
                  Panic p \<Rightarrow> (Panic p, migrations)
                | Return (name, revision, Some e) \<Rightarrow> (Return (Some e), migrations)
                | Return (name, revision, None) \<Rightarrow>
                    (case Register migrations (m\<lparr>Name := name, Revision := revision\<rparr>) of
                       (err, migrations') \<Rightarrow> (Return err, migrations'))))"

section \<open>Applying and rolling back a migration (migration.go)\<close>

text \<open>
  The database is a collaborator. What \<open>Up\<close> and \<open>Down\<close> do to it is the sequence of
  calls they make on the connection and the transaction; what it does to them is the
  reply to each call. A statement is the SQL text with its arguments.
\<close>

datatype sql_value = SqlBool bool | SqlTime time | SqlInt int

type_synonym stmt = "string \<times> sql_value list"

datatype call = CallBegin | CallExec stmt | CallCommit | CallRollback

text \<open>
  A call made once the transaction is open (the descriptor's \<open>Up\<close> and \<open>Down\<close>
  methods, \<open>tx.Exec\<close>, \<open>tx.Commit\<close>, \<open>tx.Rollback\<close>) returns a value, returns an
  error (its message), or panics; the value of a panic is not \<open>nil\<close> (since Go 1.21
  \<open>panic(nil)\<close> panics with a \<open>*runtime.PanicNilError\<close>). \<open>conn.Begin\<close> comes before the transaction and before the deferred function is set up; it is taken
  by its signature and returns an error or \<open>nil\<close>. The reply to \<open>Exec\<close>, \<open>Commit\<close>
  and \<open>Rollback\<close> may depend on the statements the transaction has run.
\<close>

datatype 'a reply = Done 'a | Failed string | Panicked string

record driver =
  Begin :: "string option"
  Exec :: "stmt list \<Rightarrow> stmt \<Rightarrow> unit reply"
  Commit :: "stmt list \<Rightarrow> unit reply"
  Rollback :: "stmt list \<Rightarrow> unit reply"

text \<open>
  The descriptor's methods \<open>Up()\<close> and \<open>Down()\<close>, which \<open>UpSQL\<close> and \<open>DownSQL\<close>
  call, are not part of this development.
\<close>

record accessors =
  Descriptor_Up :: "Descriptor \<Rightarrow> string reply"
  Descriptor_Down :: "Descriptor \<Rightarrow> string reply"

definition UpSQL :: "accessors \<Rightarrow> Migration \<Rightarrow> string reply" where
  "UpSQL acc m = Descriptor_Up acc (descriptor m)"

definition DownSQL :: "accessors \<Rightarrow> Migration \<Rightarrow> string reply" where
  "DownSQL acc m = Descriptor_Down acc (descriptor m)"

text \<open>The two bookkeeping statements, as the source writes them.\<close>

definition up_status_sql :: string where
  "up_status_sql = ''UPDATE migrations SET active=$1, applied=$2 WHERE revision=$3''"

definition down_status_sql :: string where
  "down_status_sql = ''UPDATE migrations SET active=$1, applied=NULL WHERE revision=$3''"

text \<open>
  The argument a positional parameter \<open>$n\<close> of a statement stands for: the \<open>n\<close>-th of
  the arguments passed to \<open>Exec\<close>, counted from 1, if there is one.
\<close>

definition parameter :: "sql_value list \<Rightarrow> nat \<Rightarrow> sql_value option" where
  "parameter args n = (if 1 \<le> n \<and> n \<le> length args then Some (args ! (n - 1)) else None)"

text \<open>
  \<open>upTx\<close> and \<open>downTx\<close> have a pointer receiver: they return, with their result, the
  statements they ran on the transaction, in order, and the migration as they leave it.
  \<open>now\<close> is the value of \<open>time.Now().UTC()\<close>.
\<close>

definition upTx ::
  "accessors \<Rightarrow> driver \<Rightarrow> time \<Rightarrow> Migration \<Rightarrow> error option result \<times> stmt list \<times> Migration" where
  "upTx acc drv now m =
     (case UpSQL acc m of
        Panicked p \<Rightarrow> (Panic (Thrown p), [], m)
      | Failed e \<Rightarrow> (Return (Some (ParseUpError (Revision m) e)), [], m)
      | Done sql \<Rightarrow>
          (case Exec drv [] (sql, []) of
             Panicked p \<Rightarrow> (Panic (Thrown p), [(sql, [])], m)
           | Failed e \<Rightarrow> (Return (Some (ExecUpError (Revision m) e)), [(sql, [])], m)
           | Done _ \<Rightarrow>
               if Revision m > 0
               then
                 (let status = (up_status_sql, [SqlBool True, SqlTime now, SqlInt (Revision m)])
                  in case Exec drv [(sql, [])] status of
                       Panicked p \<Rightarrow> (Panic (Thrown p), [(sql, []), status], m)
                     | Failed e \<Rightarrow>
                         (Return (Some (StatusUpdateError (Revision m) e)),
                          [(sql, []), status], m)
                     | Done _ \<Rightarrow> (Return None, [(sql, []), status], m))
               else (Return None, [(sql, [])], m)))"

definition downTx ::
  "accessors \<Rightarrow> driver \<Rightarrow> Migration \<Rightarrow> error option result \<times> stmt list \<times> Migration" where
  "downTx acc drv m =
     (case DownSQL acc m of
        Panicked p \<Rightarrow> (Panic (Thrown p), [], m)
      | Failed e \<Rightarrow> (Return (Some (ParseDownError (Revision m) e)), [], m)
      | Done sql \<Rightarrow>
          (case Exec drv [] (sql, []) of
             Panicked p \<Rightarrow> (Panic (Thrown p), [(sql, [])], m)
           | Failed e \<Rightarrow> (Return (Some (ExecDownError (Revision m) e)), [(sql, [])], m)
           | Done _ \<Rightarrow>
               if Revision m > 0
               then
                 (let status = (down_status_sql, [SqlBool False, SqlInt (Revision m)])
                  in case Exec drv [(sql, [])] status of
                       Panicked p \<Rightarrow> (Panic (Thrown p), [(sql, []), status], m)
                     | Failed e \<Rightarrow>
                         (Return (Some (StatusUpdateError (Revision m) e)),
                          [(sql, []), status], m)
                     | Done _ \<Rightarrow> (Return None, [(sql, []), status], m))
               else (Return None, [(sql, [])], m)))"

text \<open>
  The deferred function of \<open>Up\<close> and \<open>Down\<close>, run when the body has finished:
  \<^verbatim>\<open>
  if p := recover(); p != nil {
      tx.Rollback()
      panic(p)
  } else if err != nil {
      tx.Rollback()
  } else {
      err = tx.Commit()
  }
  \<close>
  After a panic of the body it rolls back and panics again with the same value; after
  an error it rolls back and leaves the error; otherwise it commits and the error of
  \<open>Commit\<close> becomes the error returned. What \<open>Rollback\<close> returns is dropped in both
  places. Nothing recovers a panic of \<open>Rollback\<close> or \<open>Commit\<close> themselves: it
  reaches the caller as it is.
\<close>

definition deferred ::
  "driver \<Rightarrow> error option result \<times> stmt list \<times> Migration \<Rightarrow>
   error option result \<times> call list \<times> Migration" where
  "deferred drv body =
     (case body of
        (Panic p, stmts, m) \<Rightarrow>
          (case Rollback drv stmts of
             Panicked q \<Rightarrow>
               (Panic (Thrown q), CallBegin # map CallExec stmts @ [CallRollback], m)
           | _ \<Rightarrow> (Panic p, CallBegin # map CallExec stmts @ [CallRollback], m))
      | (Return (Some err), stmts, m) \<Rightarrow>
          (case Rollback drv stmts of
             Panicked q \<Rightarrow>
               (Panic (Thrown q), CallBegin # map CallExec stmts @ [CallRollback], m)
           | _ \<Rightarrow> (Return (Some err), CallBegin # map CallExec stmts @ [CallRollback], m))
      | (Return None, stmts, m) \<Rightarrow>
          (case Commit drv stmts of
             Panicked q \<Rightarrow>
               (Panic (Thrown q), CallBegin # map CallExec stmts @ [CallCommit], m)
           | Failed e \<Rightarrow>
               (Return (Some (Foreign e)), CallBegin # map CallExec stmts @ [CallCommit], m)
           | Done _ \<Rightarrow> (Return None, CallBegin # map CallExec stmts @ [CallCommit], m)))"

text \<open>
  \<open>Up\<close> and \<open>Down\<close> return their result, the calls made on the connection and the
  transaction, in order, and the migration as they leave it.
\<close>

definition Up ::
  "accessors \<Rightarrow> driver \<Rightarrow> time \<Rightarrow> Migration \<Rightarrow> error option result \<times> call list \<times> Migration" where
  "Up acc drv now m =
     (case Begin drv of
        Some e \<Rightarrow> (Return (Some (BeginApplyError (Revision m) e)), [CallBegin], m)
      | None \<Rightarrow> deferred drv (upTx acc drv now m))"

definition Down ::
  "accessors \<Rightarrow> driver \<Rightarrow> Migration \<Rightarrow> error option result \<times> call list \<times> Migration" where
  "Down acc drv m =
     (case Begin drv of
        Some e \<Rightarrow> (Return (Some (BeginRollbackError (Revision m) e)), [CallBegin], m)
      | None \<Rightarrow> deferred drv (downTx acc drv m))"

section \<open>Sample collaborators\<close>

text \<open>
  Collaborators for concrete runs: a file system in which every file opens and is
  empty and one without files, a descriptor constructor that keeps the contents, an \<open>Info\<close> that
  reads the descriptor itself as the filename, accessors that return a
  fixed statement or panic, and drivers that accept every statement, refuse every
  statement, or reject the statements that carry arguments; the last two also return
  an error from \<open>Rollback\<close>.
\<close>

definition sample_os_Open :: "string \<Rightarrow> string + string" where
  "sample_os_Open path = Inr []"

definition missing_os_Open :: "string \<Rightarrow> string + string" where
  "missing_os_Open path = Inl ''no such file or directory''"

definition sample_NewDescriptor :: "string \<Rightarrow> string \<Rightarrow> Descriptor \<times> string option" where
  "sample_NewDescriptor f filename = (f, None)"

definition sample_Info :: "Descriptor \<Rightarrow> string \<times> unit \<times> string option" where
  "sample_Info d = (d, (), None)"

definition sample_accessors :: accessors where
  "sample_accessors =
     \<lparr>Descriptor_Up = (\<lambda>d. Done ''CREATE TABLE t ()''),
      Descriptor_Down = (\<lambda>d. Done ''DROP TABLE t'')\<rparr>"

definition panicking_accessors :: accessors where
  "panicking_accessors =
     \<lparr>Descriptor_Up = (\<lambda>d. Panicked ''up''), Descriptor_Down = (\<lambda>d. Panicked ''down'')\<rparr>"

definition accepting_driver :: driver where
  "accepting_driver =
     \<lparr>Begin = None, Exec = (\<lambda>done s. Done ()), Commit = (\<lambda>done. Done ()),
      Rollback = (\<lambda>done. Done ())\<rparr>"

definition refusing_driver :: driver where
  "refusing_driver =
     \<lparr>Begin = None, Exec = (\<lambda>done s. Failed ''refused''), Commit = (\<lambda>done. Done ()),
      Rollback = (\<lambda>done. Failed ''rollback failed'')\<rparr>"

definition rejecting_driver :: driver where
  "rejecting_driver =
     \<lparr>Begin = None,
      Exec = (\<lambda>done s. if snd s = [] then Done () else Failed ''rejected''),
      Commit = (\<lambda>done. Done ()),
      Rollback = (\<lambda>done. Failed ''rollback failed'')\<rparr>"

text \<open>
  Drivers that panic: in every \<open>Exec\<close>, and then in \<open>Rollback\<close> too; in the \<open>Exec\<close>
  of a statement that carries arguments, with a \<open>Rollback\<close> that returns an error; and
  in \<open>Commit\<close> only.
\<close>

definition exec_panicking_driver :: driver where
  "exec_panicking_driver =
     \<lparr>Begin = None, Exec = (\<lambda>done s. Panicked ''exec''), Commit = (\<lambda>done. Done ()),
      Rollback = (\<lambda>done. Panicked ''rollback'')\<rparr>"

definition status_panicking_driver :: driver where
  "status_panicking_driver =
     \<lparr>Begin = None,
      Exec = (\<lambda>done s. if snd s = [] then Done () else Panicked ''status''),
      Commit = (\<lambda>done. Done ()),
      Rollback = (\<lambda>done. Failed ''rollback failed'')\<rparr>"

definition commit_panicking_driver :: driver where
  "commit_panicking_driver =
     \<lparr>Begin = None, Exec = (\<lambda>done s. Done ()), Commit = (\<lambda>done. Panicked ''commit''),
      Rollback = (\<lambda>done. Done ())\<rparr>"

section \<open>Binary search\<close>

text \<open>
  \<open>sort.Search\<close> calls \<open>f\<close> only at indices between \<open>i\<close> and \<open>j\<close>: its result does
  not depend on \<open>f\<close> elsewhere, so the closures above never index the slice out of range.
\<close>

lemma Search_loop_cong:
  "(\<And>h. i \<le> h \<Longrightarrow> h < j \<Longrightarrow> f h = g h) \<Longrightarrow> Search_loop f i j = Search_loop g i j"
proof (induction f i j rule: Search_loop.induct)
  case (1 f i j)
  show ?case
  proof (cases "i < j")
    case False
    then show ?thesis by simp
  next
    case True
    define h where "h = (i + j) div 2"
    have hb: "i \<le> h" "h < j" using True by (auto simp: h_def)
    have fg: "f h = g h" using 1(3) hb by blast
    show ?thesis
    proof (cases "f h")
      case fh: True
      have "Search_loop f i h = Search_loop g i h"
        using 1(2)[OF True refl] fh 1(3) hb by (simp add: h_def)
      then show ?thesis using True fh fg by (subst (1 2) Search_loop.simps) (simp add: h_def Let_def)
    next
      case fh: False
      have "Search_loop f (h + 1) j = Search_loop g (h + 1) j"
        using 1(1)[OF True refl] fh 1(3) hb by (simp add: h_def)
      then show ?thesis using True fh fg by (subst (1 2) Search_loop.simps) (simp add: h_def Let_def)
    qed
  qed
qed



lemma Search_loop_bounds:
  assumes "i \<le> j"
  shows "i \<le> Search_loop f i j \<and> Search_loop f i j \<le> j"
  using assms
proof (induction f i j rule: Search_loop.induct)
  case (1 f i j)
  show ?case
  proof (cases "i < j")
    case False
    then show ?thesis using 1(3) by simp
  next
    case True
    define h where "h = (i + j) div 2"
    have hb: "i \<le> h" "h < j" using True by (auto simp: h_def)
    show ?thesis
    proof (cases "f h")
      case fh: True
      have "i \<le> Search_loop f i h \<and> Search_loop f i h \<le> h"
        using 1(2)[OF True refl] fh hb by (simp add: h_def)
      then show ?thesis using True fh hb by (subst (1 2) Search_loop.simps) (simp add: h_def Let_def)
    next
      case fh: False
      have "h + 1 \<le> Search_loop f (h + 1) j \<and> Search_loop f (h + 1) j \<le> j"
        using 1(1)[OF True refl] fh hb by (simp add: h_def)
      then show ?thesis using True fh hb by (subst (1 2) Search_loop.simps) (simp add: h_def Let_def)
    qed
  qed
qed

lemma Search_loop_below:
  assumes "i \<le> j" "\<And>k. k < i \<Longrightarrow> \<not> f k" "k < Search_loop f i j"
    and mono: "\<And>a b. a \<le> b \<Longrightarrow> b < j \<Longrightarrow> f a \<Longrightarrow> f b"
  shows "\<not> f k"
  using assms
proof (induction f i j rule: Search_loop.induct)
  case (1 f i j)
  show ?case
  proof (cases "i < j")
    case False
    then show ?thesis using 1(4,5) by simp
  next
    case True
    define h where "h = (i + j) div 2"
    have hb: "i \<le> h" "h < j" using True by (auto simp: h_def)
    show ?thesis
    proof (cases "f h")
      case fh: True
      have "k < Search_loop f i h"
        using 1(5) True fh by (subst (asm) Search_loop.simps) (simp add: h_def Let_def)
      then show ?thesis
        using 1(2)[OF True refl] fh hb 1(4) 1(6) by (simp add: h_def)
    next
      case fh: False
      have k: "k < Search_loop f (h + 1) j"
        using 1(5) True fh by (subst (asm) Search_loop.simps) (simp add: h_def Let_def)
      have low: "\<And>k. k < h + 1 \<Longrightarrow> \<not> f k"
      proof
        fix k assume "k < h + 1" "f k"
        then have "f h" using 1(6)[of k h] hb by simp
        then show False using fh by simp
      qed
      show ?thesis
        using 1(1)[OF True refl] fh hb k low 1(6) by (simp add: h_def)
    qed
  qed
qed

lemma Search_loop_at:
  assumes "i \<le> j" "j < n \<Longrightarrow> f j" "Search_loop f i j < n"
  shows "f (Search_loop f i j)"
  using assms
proof (induction f i j rule: Search_loop.induct)
  case (1 f i j)
  show ?case
  proof (cases "i < j")
    case False
    then show ?thesis using 1(3,4,5) by simp
  next
    case True
    define h where "h = (i + j) div 2"
    have hb: "i \<le> h" "h < j" using True by (auto simp: h_def)
    show ?thesis
    proof (cases "f h")
      case fh: True
      have eq: "Search_loop f i j = Search_loop f i h"
        using True fh by (subst Search_loop.simps) (simp add: h_def Let_def)
      show ?thesis
        using 1(2)[OF True refl] fh hb 1(5) unfolding eq by (simp add: h_def)
    next
      case fh: False
      have eq: "Search_loop f i j = Search_loop f (h + 1) j"
        using True fh by (subst Search_loop.simps) (simp add: h_def Let_def)
      show ?thesis
        using 1(1)[OF True refl] fh hb 1(4,5) unfolding eq by (simp add: h_def)
    qed
  qed
qed


lemma ascending_nth_less:
  "ascending ms \<Longrightarrow> a < b \<Longrightarrow> b < length ms \<Longrightarrow> Revision (ms ! a) < Revision (ms ! b)"
  by (simp add: ascending_def sorted_wrt_iff_nth_less)

lemma ascending_nth_le:
  "ascending ms \<Longrightarrow> a \<le> b \<Longrightarrow> b < length ms \<Longrightarrow> Revision (ms ! a) \<le> Revision (ms ! b)"
  using ascending_nth_less[of ms a b] by (cases "a = b") auto

lemma Search_le_length: "Search (length ms) f \<le> length ms"
  using Search_loop_bounds[of 0 "length ms" f] by (simp add: Search_def)

lemma Search_before:
  assumes "ascending ms" "k < Search (length ms) (\<lambda>h. r \<le> Revision (ms ! h))"
  shows "Revision (ms ! k) < r"
proof -
  have "\<not> r \<le> Revision (ms ! k)"
  proof (rule Search_loop_below[where f = "\<lambda>h. r \<le> Revision (ms ! h)" and i = 0 and j = "length ms"])
    show "k < Search_loop (\<lambda>h. r \<le> Revision (ms ! h)) 0 (length ms)"
      using assms(2) by (simp add: Search_def)
  next
    fix a b assume "a \<le> b" "b < length ms" "r \<le> Revision (ms ! a)"
    then show "r \<le> Revision (ms ! b)"
      using ascending_nth_le[OF assms(1), of a b] by simp
  qed simp_all
  then show ?thesis by simp
qed

lemma Search_at:
  assumes "Search (length ms) (\<lambda>h. r \<le> Revision (ms ! h)) < length ms"
  shows "r \<le> Revision (ms ! Search (length ms) (\<lambda>h. r \<le> Revision (ms ! h)))"
  using Search_loop_at[where f = "\<lambda>h. r \<le> Revision (ms ! h)" and i = 0 and j = "length ms" and n = "length ms"] assms
  by (simp add: Search_def)

lemma Search_registered:
  assumes asc: "ascending ms" and i: "i < length ms" and r: "Revision (ms ! i) = r"
  shows "Search (length ms) (\<lambda>h. r \<le> Revision (ms ! h)) = i"
proof -
  let ?s = "Search (length ms) (\<lambda>h. r \<le> Revision (ms ! h))"
  have "\<not> i < ?s" using Search_before[OF asc, of i r] r by auto
  then have le: "?s \<le> i" by simp
  then have lt: "?s < length ms" using i by simp
  have "r \<le> Revision (ms ! ?s)" using Search_at[OF lt] .
  then have "\<not> ?s < i" using ascending_nth_less[OF asc, of ?s i] i r by auto
  with le show ?thesis by simp
qed

lemma take_update_last:
  "i < length ys \<Longrightarrow> (take (Suc i) ys)[i := m] = take i ys @ [m]"
  by (simp add: take_Suc_conv_app_nth list_update_append min_def)

lemma copy_up_insert:
  assumes "i \<le> length xs"
  shows "(copy_up (xs @ [z]) i)[i := m] = take i xs @ m # drop i xs"
proof -
  have A: "copy_up (xs @ [z]) i = take (Suc i) (xs @ [z]) @ drop i xs"
    using assms by (simp add: copy_up_def)
  have len: "i < length (xs @ [z])" using assms by simp
  have "(take (Suc i) (xs @ [z]))[i := m] = take i (xs @ [z]) @ [m]"
    using take_update_last[OF len] .
  then have B: "(take (Suc i) (xs @ [z]))[i := m] = take i xs @ [m]"
    using assms by simp
  have "(copy_up (xs @ [z]) i)[i := m] = (take (Suc i) (xs @ [z]))[i := m] @ drop i xs"
    unfolding A using len by (simp add: list_update_append)
  then show ?thesis using B by simp
qed

lemma ascending_insert:
  assumes asc: "ascending ms" and i: "i \<le> length ms"
    and below: "\<And>k. k < i \<Longrightarrow> Revision (ms ! k) < Revision m"
    and above: "\<And>k. i \<le> k \<Longrightarrow> k < length ms \<Longrightarrow> Revision m < Revision (ms ! k)"
  shows "ascending (take i ms @ m # drop i ms)"
proof -
  have 1: "sorted_wrt (<) (map Revision (take i ms))"
    using asc by (simp add: ascending_def sorted_wrt_take flip: take_map)
  have 2: "sorted_wrt (<) (map Revision (drop i ms))"
    using asc by (simp add: ascending_def sorted_wrt_drop flip: drop_map)
  have 3: "\<forall>x\<in>set (take i ms). Revision x < Revision m"
    using below i by (auto simp: in_set_conv_nth)
  have 4: "\<forall>y\<in>set (drop i ms). Revision m < Revision y"
    using above i by (auto simp: in_set_conv_nth)
  have 5: "\<forall>x\<in>set (take i ms). \<forall>y\<in>set (drop i ms). Revision x < Revision y"
    using 3 4 by fastforce
  show ?thesis
    using 1 2 3 4 5 by (simp add: ascending_def sorted_wrt_append)
qed


lemma unregistered_nth:
  "r \<notin> Revision ` set ms \<Longrightarrow> k < length ms \<Longrightarrow> Revision (ms ! k) \<noteq> r"
  by (metis imageI nth_mem)

lemma Register_present:
  assumes asc: "ascending ms" and "Revision m \<in> Revision ` set ms"
  shows "Register ms m = (Some (DuplicateRevisionError (Revision m)), ms)"
proof -
  obtain i where i: "i < length ms" "Revision (ms ! i) = Revision m"
    using assms(2) by (auto simp: in_set_conv_nth)
  have "Search (length ms) (\<lambda>h. Revision m \<le> Revision (ms ! h)) = i"
    using Search_registered[OF asc i] .
  then show ?thesis using i by (simp add: Register_def)
qed

lemma Register_absent:
  assumes asc: "ascending ms" and new: "Revision m \<notin> Revision ` set ms"
  shows "\<exists>i\<le>length ms. Register ms m = (None, take i ms @ m # drop i ms)
           \<and> ascending (take i ms @ m # drop i ms)"
proof -
  define i where "i = Search (length ms) (\<lambda>h. Revision m \<le> Revision (ms ! h))"
  have le: "i \<le> length ms" unfolding i_def by (rule Search_le_length)
  have ne: "\<And>k. k < length ms \<Longrightarrow> Revision (ms ! k) \<noteq> Revision m"
    using unregistered_nth[OF new] .
  have below: "\<And>k. k < i \<Longrightarrow> Revision (ms ! k) < Revision m"
    unfolding i_def using Search_before[OF asc] by blast
  have above: "Revision m < Revision (ms ! k)" if "i \<le> k" "k < length ms" for k
  proof -
    have "i < length ms" using that by simp
    then have "Revision m \<le> Revision (ms ! i)" unfolding i_def by (rule Search_at)
    moreover have "Revision (ms ! i) \<le> Revision (ms ! k)"
      using ascending_nth_le[OF asc that] .
    ultimately show ?thesis using ne[OF that(2)] by simp
  qed
  have "Register ms m = (None, (copy_up (ms @ [Migration_zero]) i)[i := m])"
    using ne[of i] by (auto simp: Register_def i_def Let_def)
  then have "Register ms m = (None, take i ms @ m # drop i ms)"
    using copy_up_insert[OF le] by simp
  moreover have "ascending (take i ms @ m # drop i ms)"
    using ascending_insert[OF asc le below above] by blast
  ultimately show ?thesis using le by blast
qed

lemma Register_ascending: "ascending ms \<Longrightarrow> ascending (snd (Register ms m))"
proof (cases "Revision m \<in> Revision ` set ms")
  case True
  assume "ascending ms"
  then show ?thesis using Register_present[OF _ True] by simp
next
  case False
  assume "ascending ms"
  then show ?thesis using Register_absent[OF _ False] by auto
qed

lemma Register_all_ascending: "ascending ms \<Longrightarrow> ascending (Register_all ms calls)"
  by (induction calls arbitrary: ms) (simp_all add: Register_ascending)

lemma ascending_Nil: "ascending []"
  by (simp add: ascending_def)

lemma ascending_distinct: "ascending ms \<Longrightarrow> distinct (map Revision ms)"
  unfolding ascending_def using strict_sorted_iff[of "map Revision ms"] by simp

section \<open>Registration keeps the registry sorted\<close>

text \<open>
  Claim C6. Whatever sequence of \<open>Register\<close> calls built the registry from the empty
  one, its revisions are strictly ascending, hence without duplicates. Registering a
  revision that is present returns the duplicate-revision error and the registry as it
  was; registering a revision that is absent returns \<open>nil\<close> and a registry that is
  again strictly ascending and holds the old entries and the new one.
\<close>

theorem Register_keeps_registry_sorted:
  "ascending (Register_all [] calls) \<and>
   distinct (map Revision (Register_all [] calls)) \<and>
   (Revision m \<in> Revision ` set (Register_all [] calls) \<longrightarrow>
      Register (Register_all [] calls) m =
        (Some (DuplicateRevisionError (Revision m)), Register_all [] calls)) \<and>
   (Revision m \<notin> Revision ` set (Register_all [] calls) \<longrightarrow>
      fst (Register (Register_all [] calls) m) = None \<and>
      ascending (snd (Register (Register_all [] calls) m)) \<and>
      mset (snd (Register (Register_all [] calls) m)) = add_mset m (mset (Register_all [] calls)))"
proof -
  let ?ms = "Register_all [] calls"
  have asc: "ascending ?ms" using Register_all_ascending[OF ascending_Nil] .
  have "mset (take i ?ms @ m # drop i ?ms) = add_mset m (mset ?ms)" for i
    by (metis append_take_drop_id mset.simps(2) mset_append union_mset_add_mset_right)
  then show ?thesis
    using asc ascending_distinct[OF asc] Register_present[OF asc] Register_absent[OF asc, of m]
    by auto
qed

theorem Register_keeps_registry_sorted_witness:
  "Revision (Migration_rev 2) \<in> Revision ` set (Register_all [] (map Migration_rev [1, 2, 4, 5])) \<and>
   Register (Register_all [] (map Migration_rev [1, 2, 4, 5])) (Migration_rev 2) =
     (Some (DuplicateRevisionError 2), Register_all [] (map Migration_rev [1, 2, 4, 5])) \<and>
   Revision (Migration_rev 3) \<notin> Revision ` set (Register_all [] (map Migration_rev [1, 2, 4, 5])) \<and>
   fst (Register (Register_all [] (map Migration_rev [1, 2, 4, 5])) (Migration_rev 3)) = None \<and>
   ascending (snd (Register (Register_all [] (map Migration_rev [1, 2, 4, 5])) (Migration_rev 3))) \<and>
   mset (snd (Register (Register_all [] (map Migration_rev [1, 2, 4, 5])) (Migration_rev 3))) =
     add_mset (Migration_rev 3) (mset (Register_all [] (map Migration_rev [1, 2, 4, 5])))"
proof -
  let ?calls = "map Migration_rev [1, 2, 4, 5]"
  have h1: "Revision (Migration_rev 2) \<in> Revision ` set (Register_all [] ?calls)"
    by code_simp
  have h2: "Revision (Migration_rev 3) \<notin> Revision ` set (Register_all [] ?calls)"
    by code_simp
  have h3: "Revision (Migration_rev 2) = 2"
    by (simp add: Migration_rev_def)
  show ?thesis
    using Register_keeps_registry_sorted[of ?calls "Migration_rev 2"]
      Register_keeps_registry_sorted[of ?calls "Migration_rev 3"] h1 h2
    unfolding h3 by blast
qed

section \<open>Ordinal queries\<close>

lemma Predecessors_loop_registered:
  "ascending ms \<Longrightarrow> i < length ms \<Longrightarrow> Revision (ms ! i) = r \<Longrightarrow>
     Predecessors_loop r ms n = Inr (n + i)"
proof (induction ms arbitrary: i n)
  case Nil
  then show ?case by simp
next
  case (Cons x xs)
  show ?case
  proof (cases i)
    case 0
    then show ?thesis using Cons.prems by simp
  next
    case (Suc k)
    have lt: "Revision x < r"
      using ascending_nth_less[OF Cons.prems(1), of 0 i] Cons.prems(2,3) Suc by simp
    have "ascending xs" using Cons.prems(1) by (simp add: ascending_def)
    then have "Predecessors_loop r xs (n + 1) = Inr (n + 1 + k)"
      using Cons.IH[of k "n + 1"] Cons.prems(2,3) Suc by simp
    then show ?thesis using lt Suc by simp
  qed
qed

lemma Predecessors_loop_unregistered:
  "r \<notin> Revision ` set ms \<Longrightarrow>
     Predecessors_loop r ms n = Inl (UnregisteredError r) \<or>
     Predecessors_loop r ms n = Inr (n + length ms)"
proof (induction ms arbitrary: n)
  case Nil
  then show ?case by simp
next
  case (Cons x xs)
  have "r \<notin> Revision ` set xs" using Cons.prems by simp
  then show ?case using Cons.IH[of "n + 1"] Cons.prems by auto
qed

text \<open>
  Claim C5. In a registry with strictly ascending revisions and \<open>k\<close> entries, a
  migration whose revision is the one at position \<open>i\<close> (counted from 0) has
  \<open>Predecessors = i\<close> and \<open>Successors = k - 1 - i\<close>, both returned with a \<open>nil\<close>
  error.
\<close>

theorem ordinal_queries_registered:
  assumes "ascending migrations" and "i < length migrations"
    and "Revision m = Revision (migrations ! i)"
  shows "Predecessors migrations m = Inr i \<and>
         Successors migrations m = Inr (length migrations - 1 - i)"
proof -
  have "Predecessors_loop (Revision m) migrations 0 = Inr i"
    using Predecessors_loop_registered[OF assms(1,2), of "Revision m" 0] assms(3) by simp
  then have P: "Predecessors migrations m = Inr i"
    using assms(2) by (auto simp: Predecessors_def)
  have "Search (length migrations) (\<lambda>h. Revision m \<le> Revision (migrations ! h)) = i"
    using Search_registered[OF assms(1,2)] assms(3) by simp
  then have S: "Successors migrations m = Inr (length migrations - 1 - i)"
    using assms(2,3) by (auto simp: Successors_def Let_def)
  show ?thesis using P S by simp
qed

theorem ordinal_queries_registered_witness:
  "Predecessors (Register_all [] (map Migration_rev [1, 2, 4, 5, 3])) (Migration_rev 3) = Inr 2 \<and>
   Successors (Register_all [] (map Migration_rev [1, 2, 4, 5, 3])) (Migration_rev 3) = Inr 2"
proof -
  let ?ms = "Register_all [] (map Migration_rev [1, 2, 4, 5, 3])"
  have h1: "ascending ?ms" by code_simp
  have h2: "2 < length ?ms" by code_simp
  have h3: "Revision (Migration_rev 3) = Revision (?ms ! 2)" by code_simp
  have h4: "length ?ms - 1 - 2 = 2" by code_simp
  show ?thesis using ordinal_queries_registered[OF h1 h2 h3] h4 by simp
qed

text \<open>
  Claim C7. For any registry and any migration whose revision no entry carries (the
  registry may be empty, the revision may lie below, above or between the registered
  ones), \<open>Predecessors\<close> and \<open>Successors\<close> both return the not-registered error.
\<close>

theorem ordinal_queries_unregistered:
  assumes "Revision m \<notin> Revision ` set migrations"
  shows "Predecessors migrations m = Inl (UnregisteredError (Revision m)) \<and>
         Successors migrations m = Inl (UnregisteredError (Revision m))"
proof -
  have ne: "\<And>k. k < length migrations \<Longrightarrow> Revision (migrations ! k) \<noteq> Revision m"
    using unregistered_nth[OF assms] .
  have S: "Successors migrations m = Inl (UnregisteredError (Revision m))"
    using ne by (auto simp: Successors_def Let_def)
  have P: "Predecessors migrations m = Inl (UnregisteredError (Revision m))"
  proof (cases "migrations = []")
    case True
    then show ?thesis by (simp add: Predecessors_def)
  next
    case False
    then have "Revision (migrations ! (length migrations - 1)) \<noteq> Revision m"
      using ne[of "length migrations - 1"] by simp
    then show ?thesis
      using Predecessors_loop_unregistered[OF assms, of 0] False
      by (auto simp: Predecessors_def)
  qed
  show ?thesis using P S by simp
qed


theorem ordinal_queries_unregistered_witness:
  "Predecessors (Register_all [] (map Migration_rev [1, 2, 4, 5])) (Migration_rev 3)
     = Inl (UnregisteredError 3) \<and>
   Successors (Register_all [] (map Migration_rev [1, 2, 4, 5])) (Migration_rev 3)
     = Inl (UnregisteredError 3)"
proof -
  let ?ms = "Register_all [] (map Migration_rev [1, 2, 4, 5])"
  have h1: "Revision (Migration_rev 3) \<notin> Revision ` set ?ms" by code_simp
  have h2: "Revision (Migration_rev 3) = 3" by code_simp
  show ?thesis using ordinal_queries_unregistered[OF h1] h2 by simp
qed
section \<open>The filename pattern\<close>


lemma is_digit_name_char: "is_digit c \<Longrightarrow> is_name_char c"
  by (simp add: is_name_char_def)

lemma separator_not_digit: "c = CHR ''_'' \<or> c = CHR ''-'' \<Longrightarrow> \<not> is_digit c"
  by (auto simp: is_digit_def)

lemma name_char_not_dot: "is_name_char c \<Longrightarrow> c \<noteq> CHR ''.''"
  by (auto simp: is_name_char_def is_word_def is_digit_def)

lemma digit_val_range: "is_digit c \<Longrightarrow> 0 \<le> digit_val c \<and> digit_val c \<le> 9"
  by (auto simp: is_digit_def digit_val_def)

lemma digit_not_sign: "is_digit c \<Longrightarrow> c \<noteq> CHR ''+'' \<and> c \<noteq> CHR ''-''"
  by (auto simp: is_digit_def)

lemma FindStringSubmatch_groups:
  assumes "fnamere_groups s g1 g2"
  shows "FindStringSubmatch s = [s, g1, g2]"
proof -
  obtain sep where s: "s = g1 @ sep # g2 @ ''.sql''" and g1: "g1 \<noteq> []" "list_all is_digit g1"
    and sep: "sep = CHR ''_'' \<or> sep = CHR ''-''" and g2: "g2 \<noteq> []" "list_all is_name_char g2"
    using assms by (auto simp: fnamere_groups_def)
  have nd: "\<not> is_digit sep" using sep by (rule separator_not_digit)
  have tw: "takeWhile is_digit s = g1"
    unfolding s using g1(2) nd by (simp add: takeWhile_append2 list_all_iff)
  have dw: "dropWhile is_digit s = sep # g2 @ ''.sql''"
    unfolding s using g1(2) nd by (simp add: dropWhile_append2 list_all_iff)
  show ?thesis
    using g1 g2 sep by (simp add: FindStringSubmatch_def tw dw Let_def)
qed

lemma FindStringSubmatch_sound:
  assumes "FindStringSubmatch s \<noteq> []"
  shows "\<exists>g1 g2. FindStringSubmatch s = [s, g1, g2] \<and> fnamere_groups s g1 g2"
proof -
  define g1 where "g1 = takeWhile is_digit s"
  obtain sep body where dw: "dropWhile is_digit s = sep # body"
    using assms by (cases "dropWhile is_digit s") (auto simp: FindStringSubmatch_def)
  define g2 where "g2 = take (length body - 4) body"
  have c: "g1 \<noteq> []" "sep = CHR ''_'' \<or> sep = CHR ''-''" "drop (length body - 4) body = ''.sql''"
    "g2 \<noteq> []" "list_all is_name_char g2" and r: "FindStringSubmatch s = [s, g1, g2]"
    using assms dw unfolding FindStringSubmatch_def g1_def g2_def Let_def
    by (auto split: if_splits)
  have "s = g1 @ sep # body"
    using takeWhile_dropWhile_id[of is_digit s] dw by (simp add: g1_def)
  moreover have "body = g2 @ ''.sql''"
    using append_take_drop_id[of "length body - 4" body] c(3) by (simp add: g2_def)
  moreover have "list_all is_digit g1"
    by (simp add: g1_def list_all_iff) (meson set_takeWhileD)
  ultimately have "fnamere_groups s g1 g2"
    using c by (auto simp: fnamere_groups_def)
  then show ?thesis using r by blast
qed

text \<open>
  The groups of a match are determined by the text, so the order in which a regular
  expression engine tries the alternatives does not matter here.
\<close>

lemma fnamere_groups_unique:
  "fnamere_groups s g1 g2 \<Longrightarrow> fnamere_groups s h1 h2 \<Longrightarrow> g1 = h1 \<and> g2 = h2"
  using FindStringSubmatch_groups[of s g1 g2] FindStringSubmatch_groups[of s h1 h2] by simp

lemma MatchString_iff: "MatchString s \<longleftrightarrow> (\<exists>g1 g2. fnamere_groups s g1 g2)"
  using FindStringSubmatch_groups FindStringSubmatch_sound
  by (fastforce simp: MatchString_def)


lemma foldl_digits_mono:
  "list_all is_digit ds \<Longrightarrow> 0 \<le> n \<Longrightarrow> n \<le> foldl (\<lambda>n c. n * 10 + digit_val c) n ds"
proof (induction ds arbitrary: n)
  case Nil
  then show ?case by simp
next
  case (Cons c cs)
  have d: "0 \<le> digit_val c" using Cons.prems(1) digit_val_range by simp
  have "n * 10 + digit_val c \<le> foldl (\<lambda>n c. n * 10 + digit_val c) (n * 10 + digit_val c) cs"
    using Cons.IH[of "n * 10 + digit_val c"] Cons.prems d by simp
  then show ?case using Cons.prems(2) d by simp
qed

lemma ParseUint_loop_digits:
  "list_all is_digit ds \<Longrightarrow> 0 \<le> n \<Longrightarrow> n \<le> 2 ^ 64 - 1 \<Longrightarrow>
     ParseUint_loop n ds =
       (if foldl (\<lambda>n c. n * 10 + digit_val c) n ds \<le> 2 ^ 64 - 1
        then Inr (foldl (\<lambda>n c. n * 10 + digit_val c) n ds) else Inl ErrRange)"
proof (induction ds arbitrary: n)
  case Nil
  then show ?case by simp
next
  case (Cons c cs)
  let ?n1 = "n * 10 + digit_val c"
  have c: "is_digit c" and cs: "list_all is_digit cs" using Cons.prems(1) by simp_all
  have d: "0 \<le> digit_val c" "digit_val c \<le> 9" using c digit_val_range by simp_all
  have n1: "0 \<le> ?n1" using Cons.prems(2) d by simp
  have mono: "?n1 \<le> foldl (\<lambda>n c. n * 10 + digit_val c) ?n1 cs"
    using foldl_digits_mono[OF cs n1] .
  show ?case
  proof (cases "n \<ge> (2 ^ 64 - 1) div 10 + 1")
    case True
    then have "?n1 > 2 ^ 64 - 1" using d by simp
    then show ?thesis using True c mono by simp
  next
    case False
    show ?thesis
    proof (cases "?n1 > 2 ^ 64 - 1")
      case True
      then show ?thesis using False c mono by simp
    next
      case big: False
      then have "?n1 \<le> 2 ^ 64 - 1" by simp
      then show ?thesis using False big c Cons.IH[OF cs n1] by simp
    qed
  qed
qed

lemma Atoi_digits:
  assumes "ds \<noteq> []" "list_all is_digit ds"
  shows "Atoi ds = (if decimal ds \<le> 2 ^ 63 - 1 then Inr (decimal ds) else Inl ErrRange)"
proof -
  have hd: "hd ds \<noteq> CHR ''+''" "hd ds \<noteq> CHR ''-''"
    using assms digit_not_sign[of "hd ds"] by (cases ds; simp)+
  have "ParseUint_loop 0 ds =
       (if decimal ds \<le> 2 ^ 64 - 1 then Inr (decimal ds) else Inl ErrRange)"
    using ParseUint_loop_digits[OF assms(2), of 0] by (simp add: decimal_def)
  then show ?thesis
    using assms(1) hd by (simp add: Atoi_def Let_def)
qed

lemma parseFilename_groups:
  assumes "fnamere_groups s g1 g2"
  shows "parseFilename s =
           (if decimal g1 \<le> 2 ^ 63 - 1 then Return (Replace_underscores g2, decimal g1, None)
            else Return ([], 0, Some (RevisionFormatError g1 ErrRange)))"
proof -
  have g1: "g1 \<noteq> []" "list_all is_digit g1"
    using assms by (auto simp: fnamere_groups_def)
  show ?thesis
    using FindStringSubmatch_groups[OF assms] Atoi_digits[OF g1]
    by (simp add: parseFilename_def Let_def)
qed

lemma parseFilename_no_match:
  assumes "\<not> MatchString s"
  shows "parseFilename s = Panic (IndexOutOfRange 2 0)"
  using assms by (simp add: parseFilename_def MatchString_def Let_def)

text \<open>
  Claim C8, as the code has it. Let the base name of the path match the pattern, with
  the digits \<open>g1\<close> and the name characters \<open>g2\<close>. If \<open>g1\<close> denotes a number that
  fits Go's 64-bit \<open>int\<close> and the file opens and its descriptor is built, \<open>Open\<close>
  returns the migration whose revision is that number and whose name is \<open>g2\<close> with
  every underscore replaced by a space. If \<open>g1\<close> denotes a larger number, \<open>Open\<close>
  fails with the error of the revision number, which names \<open>g1\<close>. If the base name
  does not match the pattern, \<open>Open\<close> fails with the error that names the base name.
\<close>

theorem Open_parses_filename:
  "(fnamere_groups (Base path) g1 g2 \<and> decimal g1 \<le> 2 ^ 63 - 1 \<and>
    os_Open path = Inr f \<and> NewDescriptor f (Base path) = (d, None) \<longrightarrow>
      Open os_Open NewDescriptor path =
        Return (Migration_zero\<lparr>Name := Replace_underscores g2, Revision := decimal g1,
                                descriptor := d\<rparr>, None)) \<and>
   (fnamere_groups (Base path) g1 g2 \<and> \<not> decimal g1 \<le> 2 ^ 63 - 1 \<longrightarrow>
      Open os_Open NewDescriptor path =
        Return (Migration_zero, Some (RevisionFormatError g1 ErrRange))) \<and>
   ((\<forall>g1 g2. \<not> fnamere_groups (Base path) g1 g2) \<longrightarrow>
      Open os_Open NewDescriptor path =
        Return (Migration_zero, Some (FilenameFormatError (Base path))))"
proof -
  have zero: "Migration_zero\<lparr>Name := [], Revision := 0\<rparr> = Migration_zero"
    by (simp add: Migration_zero_def)
  have m: "MatchString (Base path)" if "fnamere_groups (Base path) g1 g2"
    using that MatchString_iff by blast
  have a: "Open os_Open NewDescriptor path =
        Return (Migration_zero\<lparr>Name := Replace_underscores g2, Revision := decimal g1,
                                descriptor := d\<rparr>, None)"
    if "fnamere_groups (Base path) g1 g2" "decimal g1 \<le> 2 ^ 63 - 1"
      "os_Open path = Inr f" "NewDescriptor f (Base path) = (d, None)"
    using that m[OF that(1)] parseFilename_groups[OF that(1)]
    by (simp add: Open_def Let_def)
  have b: "Open os_Open NewDescriptor path =
        Return (Migration_zero, Some (RevisionFormatError g1 ErrRange))"
    if "fnamere_groups (Base path) g1 g2" "\<not> decimal g1 \<le> 2 ^ 63 - 1"
    using that m[OF that(1)] parseFilename_groups[OF that(1)] zero
    by (simp add: Open_def Let_def)
  have c: "Open os_Open NewDescriptor path =
        Return (Migration_zero, Some (FilenameFormatError (Base path)))"
    if "\<forall>g1 g2. \<not> fnamere_groups (Base path) g1 g2"
    using that MatchString_iff[of "Base path"] by (simp add: Open_def Let_def)
  show ?thesis using a b c by blast
qed

theorem Open_parses_filename_witness:
  "Open sample_os_Open sample_NewDescriptor ''testdata/0001_test_migration.sql'' =
     Return (Migration_zero\<lparr>Name := ''test migration'', Revision := 1, descriptor := []\<rparr>,
             None) \<and>
   Open sample_os_Open sample_NewDescriptor ''9223372036854775808_a.sql'' =
     Return (Migration_zero, Some (RevisionFormatError ''9223372036854775808'' ErrRange)) \<and>
   Open sample_os_Open sample_NewDescriptor ''testdata/foo.txt'' =
     Return (Migration_zero, Some (FilenameFormatError ''foo.txt''))"
proof -
  have b1: "Base ''testdata/0001_test_migration.sql'' = ''0001_test_migration.sql''"
    and b2: "Base ''9223372036854775808_a.sql'' = ''9223372036854775808_a.sql''"
    and b3: "Base ''testdata/foo.txt'' = ''foo.txt''"
    by code_simp+
  have g1: "fnamere_groups ''0001_test_migration.sql'' ''0001'' ''test_migration''"
    and g2: "fnamere_groups ''9223372036854775808_a.sql'' ''9223372036854775808'' ''a''"
    by (simp_all add: fnamere_groups_def is_digit_def is_name_char_def is_word_def)
  have "\<not> MatchString ''foo.txt''" by code_simp
  then have g3: "\<forall>g1 g2. \<not> fnamere_groups ''foo.txt'' g1 g2"
    using MatchString_iff by blast
  have d1: "decimal ''0001'' = 1" and d2: "decimal ''9223372036854775808'' = 9223372036854775808"
    by code_simp+
  have r: "Replace_underscores ''test_migration'' = ''test migration''"
    by code_simp
  have o: "sample_os_Open ''testdata/0001_test_migration.sql'' = Inr []"
    "sample_NewDescriptor [] ''0001_test_migration.sql'' = ([], None)"
    by (simp_all add: sample_os_Open_def sample_NewDescriptor_def)
  show ?thesis
    using
      Open_parses_filename[of "''testdata/0001_test_migration.sql''" "''0001''"
        "''test_migration''" sample_os_Open "[]" sample_NewDescriptor "[]"]
      Open_parses_filename[of "''9223372036854775808_a.sql''" "''9223372036854775808''"
        "''a''" sample_os_Open "[]" sample_NewDescriptor "[]"]
      Open_parses_filename[of "''testdata/foo.txt''" "[]" "[]" sample_os_Open "[]"
        sample_NewDescriptor "[]"]
      g1 g2 g3
    by (simp add: b1 b2 b3 d1 d2 r o)
qed

text \<open>
  The claim as the specification states it fails twice: a filename that matches the
  pattern with a digit group beyond the 64-bit range is refused, and a filename that
  matches is refused when the file cannot be opened.
\<close>

theorem Open_revision_counterexample:
  "fnamere_groups ''9223372036854775808_a.sql'' ''9223372036854775808'' ''a'' \<and>
   Open sample_os_Open sample_NewDescriptor ''9223372036854775808_a.sql'' =
     Return (Migration_zero, Some (RevisionFormatError ''9223372036854775808'' ErrRange)) \<and>
   fnamere_groups ''0001_a.sql'' ''0001'' ''a'' \<and>
   Open missing_os_Open sample_NewDescriptor ''0001_a.sql'' =
     Return (Migration_zero\<lparr>Name := ''a'', Revision := 1\<rparr>,
             Some (Foreign ''no such file or directory''))"
proof -
  have "fnamere_groups ''0001_a.sql'' ''0001'' ''a''"
    by (simp add: fnamere_groups_def is_digit_def is_name_char_def is_word_def)
  moreover have "Open missing_os_Open sample_NewDescriptor ''0001_a.sql'' =
     Return (Migration_zero\<lparr>Name := ''a'', Revision := 1\<rparr>,
             Some (Foreign ''no such file or directory''))"
    by code_simp
  moreover
  have "fnamere_groups ''9223372036854775808_a.sql'' ''9223372036854775808'' ''a''"
    by (simp add: fnamere_groups_def is_digit_def is_name_char_def is_word_def)
  moreover have "Open sample_os_Open sample_NewDescriptor ''9223372036854775808_a.sql'' =
     Return (Migration_zero, Some (RevisionFormatError ''9223372036854775808'' ErrRange))"
    by code_simp
  ultimately show ?thesis by simp
qed

section \<open>Registering a descriptor\<close>

lemma RegisterDescriptor_empty_identifier:
  "Info data = ([], x, None) \<Longrightarrow>
     RegisterDescriptor Info migrations data = (Return (Some HeaderMissingError), migrations)"
  by (simp add: RegisterDescriptor_def Migration_zero_def)

lemma RegisterDescriptor_no_match:
  "Info data = (filename, x, None) \<Longrightarrow> filename \<noteq> [] \<Longrightarrow> \<not> MatchString filename \<Longrightarrow>
     RegisterDescriptor Info migrations data = (Panic (IndexOutOfRange 2 0), migrations)"
  by (simp add: RegisterDescriptor_def Migration_zero_def parseFilename_no_match)

text \<open>
  Claim C2. An empty identifier gives the header error, as claimed
  (\<open>RegisterDescriptor_empty_identifier\<close>). An identifier that is not empty and does not
  match the pattern does not give an error: \<open>RegisterDescriptor\<close> calls
  \<open>parseFilename\<close> without the \<open>MatchString\<close> test that \<open>Open\<close> makes first, and
  \<open>parseFilename\<close> indexes the \<open>nil\<close> slice of groups. For the identifier
  \<open>foo.txt\<close> the call panics, where \<open>Open\<close> returns the filename error.
\<close>

theorem RegisterDescriptor_panics:
  "sample_Info ''foo.txt'' = (''foo.txt'', (), None) \<and>
   \<not> MatchString ''foo.txt'' \<and>
   RegisterDescriptor sample_Info [] ''foo.txt'' = (Panic (IndexOutOfRange 2 0), []) \<and>
   Open sample_os_Open sample_NewDescriptor ''foo.txt'' =
     Return (Migration_zero, Some (FilenameFormatError ''foo.txt''))"
  by code_simp

section \<open>The transaction around a migration\<close>

lemma upTx_frame: "snd (snd (upTx acc drv now m)) = m"
  by (simp add: upTx_def Let_def split: reply.splits)

lemma downTx_frame: "snd (snd (downTx acc drv m)) = m"
  by (simp add: downTx_def Let_def split: reply.splits)

lemma deferred_frame: "snd (snd (deferred drv body)) = snd (snd body)"
  by (simp add: deferred_def split: prod.splits result.splits option.splits reply.splits)

text \<open>
  Claim C10. Whatever the outcome of \<open>Up\<close> or \<open>Down\<close> (success, an error, a panic),
  the migration the call leaves behind is the migration it was given: no field
  (\<open>Revision\<close>, \<open>Name\<close>, \<open>Active\<close>, \<open>Applied\<close>, \<open>Created\<close>, \<open>descriptor\<close>,
  \<open>dbsync\<close>) is written. In particular a successful \<open>Up\<close> sets neither \<open>Active\<close> nor
  \<open>Applied\<close> in memory; the change goes to the bookkeeping row only.
\<close>

theorem Up_Down_leave_migration_unchanged:
  "snd (snd (Up acc drv now m)) = m \<and> snd (snd (Down acc drv m)) = m"
  by (simp add: Up_def Down_def deferred_frame upTx_frame downTx_frame split: option.splits)

subsection \<open>What the deferred function does with each result of the body\<close>

lemma deferred_after_panic:
  "deferred drv (Panic p, stmts, m) =
     (Panic (case Rollback drv stmts of Panicked q \<Rightarrow> Thrown q | _ \<Rightarrow> p),
      CallBegin # map CallExec stmts @ [CallRollback], m)"
  by (simp add: deferred_def split: reply.splits)


lemma deferred_after_success:
  "deferred drv (Return None, stmts, m) =
     (case Commit drv stmts of
        Panicked q \<Rightarrow> Panic (Thrown q)
      | Failed e \<Rightarrow> Return (Some (Foreign e))
      | Done _ \<Rightarrow> Return None,
      CallBegin # map CallExec stmts @ [CallCommit], m)"
  by (simp add: deferred_def split: reply.splits)



subsection \<open>The body, case by case\<close>

lemma upTx_cases:
  "UpSQL acc m = Panicked p \<Longrightarrow> upTx acc drv now m = (Panic (Thrown p), [], m)"
  "UpSQL acc m = Done sql \<Longrightarrow> Exec drv [] (sql, []) = Panicked p \<Longrightarrow>
     upTx acc drv now m = (Panic (Thrown p), [(sql, [])], m)"
  "UpSQL acc m = Done sql \<Longrightarrow> Exec drv [] (sql, []) = Failed e \<Longrightarrow>
     upTx acc drv now m = (Return (Some (ExecUpError (Revision m) e)), [(sql, [])], m)"
  "UpSQL acc m = Done sql \<Longrightarrow> Exec drv [] (sql, []) = Done () \<Longrightarrow> Revision m > 0 \<Longrightarrow>
   Exec drv [(sql, [])] (up_status_sql, [SqlBool True, SqlTime now, SqlInt (Revision m)])
     = Panicked p \<Longrightarrow>
     upTx acc drv now m =
       (Panic (Thrown p),
        [(sql, []), (up_status_sql, [SqlBool True, SqlTime now, SqlInt (Revision m)])], m)"
  "UpSQL acc m = Done sql \<Longrightarrow> Exec drv [] (sql, []) = Done () \<Longrightarrow> Revision m > 0 \<Longrightarrow>
   Exec drv [(sql, [])] (up_status_sql, [SqlBool True, SqlTime now, SqlInt (Revision m)])
     = Failed e \<Longrightarrow>
     upTx acc drv now m =
       (Return (Some (StatusUpdateError (Revision m) e)),
        [(sql, []), (up_status_sql, [SqlBool True, SqlTime now, SqlInt (Revision m)])], m)"
  by (simp_all add: upTx_def Let_def)

lemma downTx_cases:
  "DownSQL acc m = Panicked p \<Longrightarrow> downTx acc drv m = (Panic (Thrown p), [], m)"
  "DownSQL acc m = Done sql \<Longrightarrow> Exec drv [] (sql, []) = Panicked p \<Longrightarrow>
     downTx acc drv m = (Panic (Thrown p), [(sql, [])], m)"
  "DownSQL acc m = Done sql \<Longrightarrow> Exec drv [] (sql, []) = Failed e \<Longrightarrow>
     downTx acc drv m = (Return (Some (ExecDownError (Revision m) e)), [(sql, [])], m)"
  "DownSQL acc m = Done sql \<Longrightarrow> Exec drv [] (sql, []) = Done () \<Longrightarrow> Revision m > 0 \<Longrightarrow>
   Exec drv [(sql, [])] (down_status_sql, [SqlBool False, SqlInt (Revision m)])
     = Panicked p \<Longrightarrow>
     downTx acc drv m =
       (Panic (Thrown p),
        [(sql, []), (down_status_sql, [SqlBool False, SqlInt (Revision m)])], m)"
  "DownSQL acc m = Done sql \<Longrightarrow> Exec drv [] (sql, []) = Done () \<Longrightarrow> Revision m > 0 \<Longrightarrow>
   Exec drv [(sql, [])] (down_status_sql, [SqlBool False, SqlInt (Revision m)])
     = Failed e \<Longrightarrow>
     downTx acc drv m =
       (Return (Some (StatusUpdateError (Revision m) e)),
        [(sql, []), (down_status_sql, [SqlBool False, SqlInt (Revision m)])], m)"
  by (simp_all add: downTx_def Let_def)

lemma Up_open: "Begin drv = None \<Longrightarrow> Up acc drv now m = deferred drv (upTx acc drv now m)"
  by (simp add: Up_def)

lemma Down_open: "Begin drv = None \<Longrightarrow> Down acc drv m = deferred drv (downTx acc drv m)"
  by (simp add: Down_def)

subsection \<open>Panics\<close>

text \<open>
  Claim C9, as the code has it. Once the transaction is open, if the descriptor's SQL
  accessor panics, or the \<open>Exec\<close> of the SQL body panics, or the \<open>Exec\<close> of the
  bookkeeping update panics, then \<open>Up\<close> (and likewise \<open>Down\<close>) calls \<open>Rollback\<close>
  right after the statements run so far, never calls \<open>Commit\<close>, and ends in a panic:
  with the value of the original panic when \<open>Rollback\<close> returns, whatever it returns,
  and with the value of \<open>Rollback\<close>'s own panic when \<open>Rollback\<close> panics.
\<close>

theorem panic_rolls_back:
  assumes "Begin drv = None"
  shows
   "(UpSQL acc m = Panicked p \<longrightarrow>
       Up acc drv now m =
         (Panic (Thrown (case Rollback drv [] of Panicked q \<Rightarrow> q | _ \<Rightarrow> p)),
          [CallBegin, CallRollback], m)) \<and>
    (UpSQL acc m = Done sql \<and> Exec drv [] (sql, []) = Panicked p \<longrightarrow>
       Up acc drv now m =
         (Panic (Thrown (case Rollback drv [(sql, [])] of Panicked q \<Rightarrow> q | _ \<Rightarrow> p)),
          [CallBegin, CallExec (sql, []), CallRollback], m)) \<and>
    (UpSQL acc m = Done sql \<and> Exec drv [] (sql, []) = Done () \<and> Revision m > 0 \<and>
     Exec drv [(sql, [])] (up_status_sql, [SqlBool True, SqlTime now, SqlInt (Revision m)])
       = Panicked p \<longrightarrow>
       Up acc drv now m =
         (Panic (Thrown (case Rollback drv
              [(sql, []), (up_status_sql, [SqlBool True, SqlTime now, SqlInt (Revision m)])]
            of Panicked q \<Rightarrow> q | _ \<Rightarrow> p)),
          [CallBegin, CallExec (sql, []),
           CallExec (up_status_sql, [SqlBool True, SqlTime now, SqlInt (Revision m)]),
           CallRollback], m)) \<and>
    (DownSQL acc m = Panicked p \<longrightarrow>
       Down acc drv m =
         (Panic (Thrown (case Rollback drv [] of Panicked q \<Rightarrow> q | _ \<Rightarrow> p)),
          [CallBegin, CallRollback], m)) \<and>
    (DownSQL acc m = Done sql \<and> Exec drv [] (sql, []) = Panicked p \<longrightarrow>
       Down acc drv m =
         (Panic (Thrown (case Rollback drv [(sql, [])] of Panicked q \<Rightarrow> q | _ \<Rightarrow> p)),
          [CallBegin, CallExec (sql, []), CallRollback], m)) \<and>
    (DownSQL acc m = Done sql \<and> Exec drv [] (sql, []) = Done () \<and> Revision m > 0 \<and>
     Exec drv [(sql, [])] (down_status_sql, [SqlBool False, SqlInt (Revision m)])
       = Panicked p \<longrightarrow>
       Down acc drv m =
         (Panic (Thrown (case Rollback drv
              [(sql, []), (down_status_sql, [SqlBool False, SqlInt (Revision m)])]
            of Panicked q \<Rightarrow> q | _ \<Rightarrow> p)),
          [CallBegin, CallExec (sql, []),
           CallExec (down_status_sql, [SqlBool False, SqlInt (Revision m)]),
           CallRollback], m))"
  by (simp add: Up_open[OF assms] Down_open[OF assms] upTx_cases downTx_cases
      deferred_after_panic split: reply.splits)

text \<open>
  The claim as the specification states it, for every panic after the transaction is
  opened, fails for a panic of \<open>Commit\<close>: the deferred function has already found
  nothing to recover, and the panic reaches the caller with no \<open>Rollback\<close>.
\<close>

theorem panic_in_Commit_counterexample:
  "Up sample_accessors commit_panicking_driver 7 (Migration_rev 2) =
     (Panic (Thrown ''commit''),
      [CallBegin, CallExec (''CREATE TABLE t ()'', []),
       CallExec (up_status_sql, [SqlBool True, SqlTime 7, SqlInt 2]), CallCommit],
      Migration_rev 2) \<and>
   CallRollback \<notin> set (fst (snd (Up sample_accessors commit_panicking_driver 7 (Migration_rev 2)))) \<and>
   Down sample_accessors commit_panicking_driver (Migration_rev 2) =
     (Panic (Thrown ''commit''),
      [CallBegin, CallExec (''DROP TABLE t'', []),
       CallExec (down_status_sql, [SqlBool False, SqlInt 2]), CallCommit],
      Migration_rev 2) \<and>
   CallRollback \<notin> set (fst (snd (Down sample_accessors commit_panicking_driver (Migration_rev 2))))"
  by code_simp

subsection \<open>Errors\<close>


subsection \<open>Success\<close>





text \<open>
  Claim C1. The bookkeeping update of \<open>downTx\<close> is the text
  \<open>UPDATE migrations SET active=$1, applied=NULL WHERE revision=$3\<close> with the two
  arguments \<open>false\<close> and the revision. On a driver that accepts every statement,
  \<open>Down\<close> of revision 2 succeeds and has sent that statement: the parameter \<open>$3\<close> of
  its \<open>WHERE\<close> clause has no argument, and the revision is the argument of \<open>$2\<close>, which
  the text does not mention. The row that is updated is not chosen by the migration's
  revision.
\<close>

theorem Down_bookkeeping_unbound:
  "Down sample_accessors accepting_driver (Migration_rev 2) =
     (Return None,
      [CallBegin, CallExec (''DROP TABLE t'', []),
       CallExec (''UPDATE migrations SET active=$1, applied=NULL WHERE revision=$3'',
                 [SqlBool False, SqlInt 2]),
       CallCommit],
      Migration_rev 2) \<and>
   parameter [SqlBool False, SqlInt 2] 3 = None \<and>
   parameter [SqlBool False, SqlInt 2] 2 = Some (SqlInt 2)"
  by code_simp


lemma sample_facts:
  "Begin refusing_driver = None" "Begin rejecting_driver = None"
  "Begin accepting_driver = None" "Begin exec_panicking_driver = None"
  "Begin status_panicking_driver = None"
  "UpSQL sample_accessors m = Done ''CREATE TABLE t ()''"
  "DownSQL sample_accessors m = Done ''DROP TABLE t''"
  "UpSQL panicking_accessors m = Panicked ''up''"
  "DownSQL panicking_accessors m = Panicked ''down''"
  "Exec refusing_driver done s = Failed ''refused''"
  "Exec rejecting_driver done (sql, []) = Done ()"
  "Exec rejecting_driver done (sql, a # args) = Failed ''rejected''"
  "Exec exec_panicking_driver done s = Panicked ''exec''"
  "Exec status_panicking_driver done (sql, []) = Done ()"
  "Exec status_panicking_driver done (sql, a # args) = Panicked ''status''"
  "Rollback accepting_driver done = Done ()"
  "Rollback refusing_driver done = Failed ''rollback failed''"
  "Rollback rejecting_driver done = Failed ''rollback failed''"
  "Rollback exec_panicking_driver done = Panicked ''rollback''"
  "Rollback status_panicking_driver done = Failed ''rollback failed''"
  "Revision (Migration_rev r) = r"
  by (simp_all add: refusing_driver_def rejecting_driver_def accepting_driver_def
      exec_panicking_driver_def status_panicking_driver_def sample_accessors_def
      panicking_accessors_def UpSQL_def DownSQL_def Migration_rev_def)


theorem panic_rolls_back_witness:
  "Up panicking_accessors accepting_driver 7 (Migration_rev 2) =
     (Panic (Thrown ''up''), [CallBegin, CallRollback], Migration_rev 2) \<and>
   Down panicking_accessors accepting_driver (Migration_rev 2) =
     (Panic (Thrown ''down''), [CallBegin, CallRollback], Migration_rev 2) \<and>
   Up sample_accessors exec_panicking_driver 7 (Migration_rev 2) =
     (Panic (Thrown ''rollback''),
      [CallBegin, CallExec (''CREATE TABLE t ()'', []), CallRollback], Migration_rev 2) \<and>
   Down sample_accessors exec_panicking_driver (Migration_rev 2) =
     (Panic (Thrown ''rollback''),
      [CallBegin, CallExec (''DROP TABLE t'', []), CallRollback], Migration_rev 2) \<and>
   Up sample_accessors status_panicking_driver 7 (Migration_rev 2) =
     (Panic (Thrown ''status''),
      [CallBegin, CallExec (''CREATE TABLE t ()'', []),
       CallExec (up_status_sql, [SqlBool True, SqlTime 7, SqlInt 2]), CallRollback],
      Migration_rev 2) \<and>
   Down sample_accessors status_panicking_driver (Migration_rev 2) =
     (Panic (Thrown ''status''),
      [CallBegin, CallExec (''DROP TABLE t'', []),
       CallExec (down_status_sql, [SqlBool False, SqlInt 2]), CallRollback],
      Migration_rev 2)"
  using
    panic_rolls_back[OF sample_facts(3), of panicking_accessors "Migration_rev 2" "''up''" 7]
    panic_rolls_back[OF sample_facts(3), of panicking_accessors "Migration_rev 2" "''down''" 7]
    panic_rolls_back[OF sample_facts(4), of sample_accessors "Migration_rev 2" "''exec''" 7
      "''CREATE TABLE t ()''"]
    panic_rolls_back[OF sample_facts(4), of sample_accessors "Migration_rev 2" "''exec''" 7
      "''DROP TABLE t''"]
    panic_rolls_back[OF sample_facts(5), of sample_accessors "Migration_rev 2" "''status''" 7
      "''CREATE TABLE t ()''"]
    panic_rolls_back[OF sample_facts(5), of sample_accessors "Migration_rev 2" "''status''" 7
      "''DROP TABLE t''"]
  by (simp add: sample_facts)



end
